theory Spec2Isabelle
  imports Main
begin

section \<open>Python values\<close>

text \<open>
  The orchestrator \<^verbatim>\<open>Agent.step\<close> of \<^verbatim>\<open>src/agent/__init__.py\<close> is duck-typed: the
  snapshot, the stage results and the belief-state slots are arbitrary Python objects.
  They are embedded in one datatype. A mapping is an association list in insertion
  order, its keys being strings as the snapshot's are. \<open>PObj\<close> stands for an opaque
  object that is neither a mapping nor iterable and has the default truth value, such
  as a PIL image. A \<open>char\<close> stands for one code point below 256.
\<close>

datatype pyval =
    PNone
  | PBool bool
  | PInt int
  | PStr string
  | PList "pyval list"
  | PTuple "pyval list"
  | PDict "(string \<times> pyval) list"
  | PObj nat

type_synonym pydict = "(string \<times> pyval) list"

text \<open>
  What can be raised. The orchestrator's own lookups raise \<open>AttributeError\<close> (a
  \<^verbatim>\<open>.get\<close> or \<^verbatim>\<open>.items\<close> on something that is no mapping) and \<open>TypeError\<close> (\<^verbatim>\<open>list\<close> of
  something not iterable); a stage may raise anything, and so may a \<^verbatim>\<open>print\<close>.
  \<open>OtherError\<close> is any other instance of \<^verbatim>\<open>Exception\<close>, \<open>OtherBaseException\<close> any other
  instance of \<^verbatim>\<open>BaseException\<close> that is no \<^verbatim>\<open>Exception\<close>.
\<close>

datatype exn =
    AttributeError
  | TypeError
  | UnicodeEncodeError
  | OtherError string
  | KeyboardInterrupt
  | SystemExit
  | OtherBaseException string

text \<open>\<^verbatim>\<open>isinstance(e, Exception)\<close>: what \<^verbatim>\<open>except Exception\<close> catches.\<close>

fun is_Exception :: "exn \<Rightarrow> bool" where
  "is_Exception AttributeError = True"
| "is_Exception TypeError = True"
| "is_Exception UnicodeEncodeError = True"
| "is_Exception (OtherError msg) = True"
| "is_Exception KeyboardInterrupt = False"
| "is_Exception SystemExit = False"
| "is_Exception (OtherBaseException msg) = False"

text \<open>The truth value that \<^verbatim>\<open>or\<close> tests.\<close>

fun truthy :: "pyval \<Rightarrow> bool" where
  "truthy PNone = False"
| "truthy (PBool b) = b"
| "truthy (PInt i) = (i \<noteq> 0)"
| "truthy (PStr s) = (s \<noteq> [])"
| "truthy (PList xs) = (xs \<noteq> [])"
| "truthy (PTuple xs) = (xs \<noteq> [])"
| "truthy (PDict d) = (d \<noteq> [])"
| "truthy (PObj n) = True"

text \<open>\<^verbatim>\<open>d.get(k, default)\<close> on a mapping.\<close>

definition dict_get :: "pydict \<Rightarrow> string \<Rightarrow> pyval \<Rightarrow> pyval" where
  "dict_get d k dflt = (case map_of d k of Some v \<Rightarrow> v | None \<Rightarrow> dflt)"

text \<open>\<^verbatim>\<open>obj.get(k, default)\<close> on any object: only a mapping has the method.\<close>

fun py_get :: "pyval \<Rightarrow> string \<Rightarrow> pyval \<Rightarrow> exn + pyval" where
  "py_get (PDict d) k dflt = Inr (dict_get d k dflt)"
| "py_get PNone k dflt = Inl AttributeError"
| "py_get (PBool b) k dflt = Inl AttributeError"
| "py_get (PInt i) k dflt = Inl AttributeError"
| "py_get (PStr s) k dflt = Inl AttributeError"
| "py_get (PList xs) k dflt = Inl AttributeError"
| "py_get (PTuple xs) k dflt = Inl AttributeError"
| "py_get (PObj n) k dflt = Inl AttributeError"

section \<open>The bounded deque\<close>

text \<open>
  \<^verbatim>\<open>collections.deque(maxlen=n)\<close>: the capacity is fixed when the object is made;
  \<^verbatim>\<open>append\<close> adds on the right and, when the length then exceeds the capacity,
  drops one element on the left.
\<close>

record deque =
  maxlen :: nat
  items :: "pyval list"

definition deque_append :: "deque \<Rightarrow> pyval \<Rightarrow> deque" where
  "deque_append d x =
     (let ys = items d @ [x]
      in d\<lparr>items := (if maxlen d < length ys then tl ys else ys)\<rparr>)"

section \<open>String splitting and trimming\<close>

text \<open>\<^verbatim>\<open>str.isspace\<close> on one code point below 256.\<close>

definition isspace :: "char \<Rightarrow> bool" where
  "isspace c =
     (let n = (of_char c :: nat)
      in (9 \<le> n \<and> n \<le> 13) \<or> (28 \<le> n \<and> n \<le> 32) \<or> n = 133 \<or> n = 160)"

text \<open>\<^verbatim>\<open>s.strip()\<close>: leading and trailing whitespace removed.\<close>

definition strip :: "string \<Rightarrow> string" where
  "strip s = rev (dropWhile isspace (rev (dropWhile isspace s)))"

text \<open>
  \<^verbatim>\<open>s.split(sep)\<close> for a separator of one character: a scan from the left that closes
  the current field at each separator. The result always has at least one field.
\<close>

fun split_scan :: "char \<Rightarrow> string \<Rightarrow> string \<Rightarrow> string list" where
  "split_scan sep cur [] = [rev cur]"
| "split_scan sep cur (c # cs) =
     (if c = sep then rev cur # split_scan sep [] cs
      else split_scan sep (c # cur) cs)"

definition split_on :: "string \<Rightarrow> char \<Rightarrow> string list" where
  "split_on s sep = split_scan sep [] s"

text \<open>\<^verbatim>\<open>sep.join(fields)\<close>, the inverse the split is measured against.\<close>

fun join :: "string \<Rightarrow> string list \<Rightarrow> string" where
  "join sep [] = []"
| "join sep [f] = f"
| "join sep (f # g # fs) = f @ sep @ join sep (g # fs)"

section \<open>The belief state and the stages\<close>

text \<open>
  \<^verbatim>\<open>self.context\<close> as \<^verbatim>\<open>Agent.__init__\<close> builds it in four-module mode. The simple mode
  delegates to another class and has no context; it is not modelled.
\<close>

record ctx =
  memory_context :: pyval
  current_plan :: pyval
  recent_actions :: deque
  last_observation :: pyval
  step_counter :: int

definition init_context :: ctx where
  "init_context =
     \<lparr>memory_context = PStr ''Initialized memory context'',
      current_plan = PNone,
      recent_actions = \<lparr>maxlen = 25, items = []\<rparr>,
      last_observation = PNone,
      step_counter = 0\<rparr>"

text \<open>
  The four stage functions are imported from modules outside this file and call a
  model backend, so they are parameters here: each maps the arguments the orchestrator
  passes (without the backend handle) to the exception it raises or the value it
  returns. \<open>str_builtin\<close> is Python's \<^verbatim>\<open>str\<close>, whose output only travels on to stages.
  \<open>print_error\<close> is what the \<^verbatim>\<open>print\<close> of line 143 does with the caught exception on
  the standard output of the process: \<open>None\<close> when the line is written, the exception
  it raises otherwise (\<open>UnicodeEncodeError\<close> when the output encoding lacks the cross
  mark of the message).
\<close>

record stages =
  perception_step :: "pyval \<Rightarrow> pydict \<Rightarrow> exn + (pyval \<times> pyval)"
  memory_step :: "pyval \<Rightarrow> pyval \<Rightarrow> pyval list \<Rightarrow> pyval list \<Rightarrow> exn + pyval"
  planning_step :: "pyval \<Rightarrow> pyval \<Rightarrow> pyval \<Rightarrow> pydict \<Rightarrow> exn + pyval"
  action_step ::
    "pyval \<Rightarrow> pyval \<Rightarrow> pyval \<Rightarrow> pyval \<Rightarrow> pydict \<Rightarrow> pyval list \<Rightarrow> exn + pyval"
  str_builtin :: "pyval \<Rightarrow> string"
  print_error :: "exn \<Rightarrow> exn option"

section \<open>One tick\<close>

text \<open>
  Line 78: \<^verbatim>\<open>game_state.get("frame") or game_state.get("visual", {}).get("screenshot")\<close>.
\<close>

definition resolve_frame :: "pyval \<Rightarrow> exn + pyval" where
  "resolve_frame game_state =
     (case py_get game_state ''frame'' PNone of
        Inl e \<Rightarrow> Inl e
      | Inr f \<Rightarrow>
          if truthy f then Inr f
          else (case py_get game_state ''visual'' (PDict []) of
                  Inl e \<Rightarrow> Inl e
                | Inr v \<Rightarrow> py_get v ''screenshot'' PNone))"

text \<open>Line 79: \<^verbatim>\<open>{k: v for k, v in game_state.items() if k != "frame"}\<close>.\<close>

definition without_frame :: "pydict \<Rightarrow> pydict" where
  "without_frame d = filter (\<lambda>(k, v). k \<noteq> ''frame'') d"

fun state_data_of :: "pyval \<Rightarrow> exn + pydict" where
  "state_data_of (PDict d) = Inr (without_frame d)"
| "state_data_of PNone = Inl AttributeError"
| "state_data_of (PBool b) = Inl AttributeError"
| "state_data_of (PInt i) = Inl AttributeError"
| "state_data_of (PStr s) = Inl AttributeError"
| "state_data_of (PList xs) = Inl AttributeError"
| "state_data_of (PTuple xs) = Inl AttributeError"
| "state_data_of (PObj n) = Inl AttributeError"

text \<open>Lines 87 to 91: the entry handed to the memory stage.\<close>

definition observation_entry :: "ctx \<Rightarrow> pydict \<Rightarrow> pyval \<Rightarrow> pyval" where
  "observation_entry c state_data observation_text =
     PDict [(''frame_id'', dict_get state_data ''step_number'' (PInt (step_counter c))),
            (''observation'', observation_text),
            (''state'', PDict state_data)]"

text \<open>
  Lines 123 to 128: the raw result of the action stage becomes a list of tokens.
  \<^verbatim>\<open>list(x)\<close> of a mapping is the list of its keys, and raises on what is not iterable.
\<close>

fun normalize_actions :: "pyval \<Rightarrow> exn + pyval list" where
  "normalize_actions PNone = Inr []"
| "normalize_actions (PStr s) =
     Inr (map PStr (filter (\<lambda>btn. btn \<noteq> []) (map strip (split_on s (CHR '','')))))"
| "normalize_actions (PList xs) = Inr xs"
| "normalize_actions (PTuple xs) = Inr xs"
| "normalize_actions (PDict d) = Inr (map (\<lambda>(k, v). PStr k) d)"
| "normalize_actions (PBool b) = Inl TypeError"
| "normalize_actions (PInt i) = Inl TypeError"
| "normalize_actions (PObj n) = Inl TypeError"

text \<open>
  Lines 78 to 140, the body of the \<^verbatim>\<open>try\<close>: the exception or the returned mapping,
  and the context as the assignments made so far have left it.
\<close>

definition step_body :: "stages \<Rightarrow> ctx \<Rightarrow> pyval \<Rightarrow> (exn + pyval) \<times> ctx" where
  "step_body st c game_state =
    (case resolve_frame game_state of
       Inl e \<Rightarrow> (Inl e, c)
     | Inr frame \<Rightarrow>
    (case state_data_of game_state of
       Inl e \<Rightarrow> (Inl e, c)
     | Inr state_data \<Rightarrow>
    (case perception_step st frame state_data of
       Inl e \<Rightarrow> (Inl e, c)
     | Inr (observation_dict, slow_thinking_needed) \<Rightarrow>
    (case py_get observation_dict ''description''
            (PStr (str_builtin st observation_dict)) of
       Inl e \<Rightarrow> (Inl e, c)
     | Inr observation_text \<Rightarrow>
    (let c1 = c\<lparr>last_observation := observation_dict\<rparr> in
    (case memory_step st (memory_context c1) (current_plan c1)
            (items (recent_actions c1))
            [observation_entry c1 state_data observation_text] of
       Inl e \<Rightarrow> (Inl e, c1)
     | Inr memory_ctx \<Rightarrow>
    (let c2 = c1\<lparr>memory_context := memory_ctx\<rparr> in
    (case planning_step st memory_ctx (current_plan c2) slow_thinking_needed
            state_data of
       Inl e \<Rightarrow> (Inl e, c2)
     | Inr plan \<Rightarrow>
    (let c3 = c2\<lparr>current_plan := plan\<rparr> in
    (case action_step st memory_ctx plan observation_text frame state_data
            (items (recent_actions c3)) of
       Inl e \<Rightarrow> (Inl e, c3)
     | Inr raw \<Rightarrow>
    (case normalize_actions raw of
       Inl e \<Rightarrow> (Inl e, c3)
     | Inr actions \<Rightarrow>
    (let c4 = c3\<lparr>recent_actions := foldl deque_append (recent_actions c3) actions\<rparr>;
         c5 = c4\<lparr>step_counter := step_counter c4 + 1\<rparr>
     in (Inr (PDict [(''action'', PList actions),
                     (''observation'', observation_dict),
                     (''plan'', plan),
                     (''memory_context'', memory_ctx)]), c5)))))))))))))"

text \<open>
  Lines 142 to 144, the \<^verbatim>\<open>except Exception\<close> clause, for an exception the body has
  raised: one that is no \<^verbatim>\<open>Exception\<close> is not caught and goes on to the caller; a caught
  one is printed, and the clause returns \<^verbatim>\<open>None\<close> unless the \<^verbatim>\<open>print\<close> itself raises,
  which then goes on to the caller.
\<close>

definition except_clause :: "stages \<Rightarrow> exn \<Rightarrow> exn + pyval" where
  "except_clause st e =
     (if is_Exception e
      then (case print_error st e of None \<Rightarrow> Inr PNone | Some e' \<Rightarrow> Inl e')
      else Inl e)"

text \<open>
  \<^verbatim>\<open>Agent.step\<close> in four-module mode: the value returned or the exception that reaches
  the caller, and the context. The \<^verbatim>\<open>except\<close> clause restores nothing.
\<close>

definition step :: "stages \<Rightarrow> ctx \<Rightarrow> pyval \<Rightarrow> (exn + pyval) \<times> ctx" where
  "step st c game_state =
     (case step_body st c game_state of
        (Inl e, c') \<Rightarrow> (except_clause st e, c')
      | (Inr decision, c') \<Rightarrow> (Inr decision, c'))"

text \<open>
  A sequence of calls on one agent. The stages answer from a model backend, so each
  call comes with its own stage behaviour; a caller that has caught an exception of
  one call may go on to the next.
\<close>

fun run :: "ctx \<Rightarrow> (stages \<times> pyval) list \<Rightarrow> ctx" where
  "run c [] = c"
| "run c ((st, game_state) # ticks) = run (snd (step st c game_state)) ticks"

section \<open>Concrete stage behaviours\<close>

text \<open>
  Stage behaviours and snapshots on which the results below are evaluated: a backend
  that always answers, the same backend with one stage raising, a planning stage that
  is interrupted from the keyboard, and an output that cannot encode the message.
\<close>

definition demo_stages :: stages where
  "demo_stages =
     \<lparr>perception_step =
        (\<lambda>frame state_data. Inr (PDict [(''description'', PStr ''overworld'')], PBool False)),
      memory_step = (\<lambda>m p recent entries. Inr (PList entries)),
      planning_step = (\<lambda>m p slow state_data. Inr (PStr ''reach the lab'')),
      action_step = (\<lambda>m p text frame state_data recent. Inr (PStr ''LEFT'')),
      str_builtin = (\<lambda>v. ''{...}''),
      print_error = (\<lambda>e. None)\<rparr>"

definition backend_down :: "exn + 'a" where
  "backend_down = Inl (OtherError ''backend unavailable'')"

definition perception_raises :: stages where
  "perception_raises =
     demo_stages\<lparr>perception_step := (\<lambda>frame state_data. backend_down)\<rparr>"

definition memory_raises :: stages where
  "memory_raises = demo_stages\<lparr>memory_step := (\<lambda>m p recent entries. backend_down)\<rparr>"

definition planning_raises :: stages where
  "planning_raises =
     demo_stages\<lparr>planning_step := (\<lambda>m p slow state_data. backend_down)\<rparr>"

definition action_raises :: stages where
  "action_raises =
     demo_stages\<lparr>action_step := (\<lambda>m p text frame state_data recent. backend_down)\<rparr>"

definition planning_interrupted :: stages where
  "planning_interrupted =
     demo_stages\<lparr>planning_step := (\<lambda>m p slow state_data. Inl KeyboardInterrupt)\<rparr>"

definition print_fails :: stages where
  "print_fails = memory_raises\<lparr>print_error := (\<lambda>e. Some UnicodeEncodeError)\<rparr>"

definition demo_snapshot :: pydict where
  "demo_snapshot =
     [(''frame'', PObj 0),
      (''visual'', PDict [(''screenshot'', PObj 1)]),
      (''game_state'', PDict [(''location'', PStr ''Littleroot Town'')]),
      (''audio'', PDict []),
      (''progress'', PDict []),
      (''step_number'', PInt 7)]"

text \<open>Removing keys from a snapshot.\<close>

definition dict_without :: "string set \<Rightarrow> pydict \<Rightarrow> pydict" where
  "dict_without K d = filter (\<lambda>(k, v). k \<notin> K) d"


text \<open>
  A snapshot whose \<^verbatim>\<open>frame\<close> entry is present and empty, twenty-seven distinct tokens,
  and a deque filled to its capacity.
\<close>

definition falsy_frame_snapshot :: pydict where
  "falsy_frame_snapshot =
     [(''frame'', PList []), (''visual'', PDict [(''screenshot'', PObj 1)])]"

definition tokens27 :: "pyval list" where
  "tokens27 = map PInt [1, 2, 3, 4, 5, 6, 7, 8, 9, 10, 11, 12, 13, 14, 15, 16, 17, 18, 19,
     20, 21, 22, 23, 24, 25, 26, 27]"

definition full_deque :: deque where
  "full_deque = \<lparr>maxlen = 25, items = map PInt [1, 2, 3, 4, 5, 6, 7, 8, 9, 10, 11, 12, 13,
     14, 15, 16, 17, 18, 19, 20, 21, 22, 23, 24, 25]\<rparr>"

section \<open>Properties of the deque\<close>

lemma maxlen_deque_append: "maxlen (deque_append d x) = maxlen d"
  by (simp add: deque_append_def Let_def)

lemma length_deque_append:
  "length (items d) \<le> maxlen d \<Longrightarrow> length (items (deque_append d x)) \<le> maxlen d"
  by (auto simp: deque_append_def Let_def)

lemma maxlen_foldl: "maxlen (foldl deque_append d ts) = maxlen d"
  by (induction ts arbitrary: d) (simp_all add: maxlen_deque_append)

lemma length_foldl:
  "length (items d) \<le> maxlen d \<Longrightarrow> length (items (foldl deque_append d ts)) \<le> maxlen d"
proof (induction ts arbitrary: d)
  case Nil
  then show ?case by simp
next
  case (Cons t ts)
  have "length (items (deque_append d t)) \<le> maxlen (deque_append d t)"
    using Cons.prems by (simp add: maxlen_deque_append length_deque_append)
  from Cons.IH [OF this] show ?case by (simp add: maxlen_deque_append)
qed

text \<open>After any appends the deque holds the newest elements, as many as fit.\<close>

lemma items_foldl:
  "length (items d) \<le> maxlen d \<Longrightarrow>
   items (foldl deque_append d ts) =
     drop (length (items d) + length ts - maxlen d) (items d @ ts)"
proof (induction ts arbitrary: d)
  case Nil
  then show ?case by simp
next
  case (Cons t ts)
  let ?d = "deque_append d t"
  have len: "length (items ?d) \<le> maxlen ?d"
    using Cons.prems by (simp add: maxlen_deque_append length_deque_append)
  have "items (foldl deque_append d (t # ts)) = items (foldl deque_append ?d ts)"
    by simp
  also have "\<dots> = drop (length (items ?d) + length ts - maxlen d) (items ?d @ ts)"
    using Cons.IH [OF len] by (simp add: maxlen_deque_append)
  also have "\<dots> = drop (length (items d) + length (t # ts) - maxlen d) (items d @ t # ts)"
  proof (cases "length (items d) = maxlen d")
    case True
    then show ?thesis
      by (cases "items d") (auto simp: deque_append_def Let_def drop_Suc)
  next
    case False
    with Cons.prems have "length (items d) < maxlen d" by simp
    then show ?thesis by (simp add: deque_append_def Let_def)
  qed
  finally show ?case .
qed

section \<open>Properties of splitting and trimming\<close>

lemma split_scan_nonempty: "split_scan sep cur s \<noteq> []"
  by (induction s arbitrary: cur) auto

lemma join_split_scan: "join [sep] (split_scan sep cur s) = rev cur @ s"
proof (induction s arbitrary: cur)
  case Nil
  then show ?case by simp
next
  case (Cons c cs)
  show ?case
  proof (cases "c = sep")
    case True
    obtain f fs where "split_scan sep [] cs = f # fs"
      using split_scan_nonempty [of sep "[]" cs] by (cases "split_scan sep [] cs") auto
    with Cons.IH [of "[]"] True show ?thesis by simp
  next
    case False
    with Cons.IH [of "c # cur"] show ?thesis by simp
  qed
qed

lemma split_scan_no_sep:
  "sep \<notin> set cur \<Longrightarrow> \<forall>f \<in> set (split_scan sep cur s). sep \<notin> set f"
proof (induction s arbitrary: cur)
  case Nil
  then show ?case by simp
next
  case (Cons c cs)
  show ?case
  proof (cases "c = sep")
    case True
    with Cons.IH [of "[]"] Cons.prems show ?thesis by simp
  next
    case False
    with Cons.IH [of "c # cur"] Cons.prems show ?thesis by simp
  qed
qed

lemma strip_decomp:
  "s = takeWhile isspace s @ strip s @ rev (takeWhile isspace (rev (dropWhile isspace s)))"
proof -
  let ?t = "dropWhile isspace s"
  have "rev ?t = takeWhile isspace (rev ?t) @ dropWhile isspace (rev ?t)" by simp
  then have "?t = rev (dropWhile isspace (rev ?t)) @ rev (takeWhile isspace (rev ?t))"
    by (metis rev_append rev_rev_ident)
  then have "?t = strip s @ rev (takeWhile isspace (rev ?t))"
    by (simp add: strip_def)
  moreover have "s = takeWhile isspace s @ ?t" by simp
  ultimately show ?thesis by metis
qed

lemma strip_last: "strip s \<noteq> [] \<Longrightarrow> \<not> isspace (last (strip s))"
  unfolding strip_def by (simp add: last_rev hd_dropWhile)

lemma strip_hd: "strip s \<noteq> [] \<Longrightarrow> \<not> isspace (hd (strip s))"
proof -
  assume ne: "strip s \<noteq> []"
  let ?t = "dropWhile isspace s"
  have "?t = [] \<Longrightarrow> strip s = []"
    unfolding strip_def by (simp del: dropWhile_eq_Nil_conv)
  with ne have t: "?t \<noteq> []" by blast
  then have h: "\<not> isspace (hd ?t)" by (rule hd_dropWhile)
  have "?t = strip s @ rev (takeWhile isspace (rev ?t))"
    using strip_decomp [of s] by (metis same_append_eq takeWhile_dropWhile_id)
  then have "hd ?t = hd (strip s)" using ne by (metis hd_append2)
  with h show ?thesis by simp
qed

section \<open>Properties of one tick\<close>

lemma snd_step: "snd (step st c gs) = snd (step_body st c gs)"
  by (simp add: step_def split: prod.splits sum.splits)

lemma fst_step:
  "fst (step st c gs) =
     (case fst (step_body st c gs) of Inl e \<Rightarrow> except_clause st e | Inr d \<Rightarrow> Inr d)"
  by (simp add: step_def split: prod.splits sum.splits)

lemma except_clause_cases: "except_clause st e = Inr PNone \<or> isl (except_clause st e)"
  by (simp add: except_clause_def split: option.splits)

lemma step_body_cases:
  "isl (fst (step_body st c gs)) \<or>
   (\<exists>a ob p m. fst (step_body st c gs) =
      Inr (PDict [(''action'', PList a), (''observation'', ob), (''plan'', p),
                  (''memory_context'', m)]))"
  by (auto simp: step_body_def Let_def split: sum.splits prod.splits)

lemma step_cases:
  "fst (step st c gs) = Inr PNone \<or>
   (\<exists>a ob p m. fst (step st c gs) =
      Inr (PDict [(''action'', PList a), (''observation'', ob), (''plan'', p),
                  (''memory_context'', m)])) \<or>
   isl (fst (step st c gs))"
proof (cases "fst (step_body st c gs)")
  case (Inl e)
  with except_clause_cases [of st e] show ?thesis by (auto simp: fst_step)
next
  case (Inr d)
  with step_body_cases [of st c gs] show ?thesis by (auto simp: fst_step)
qed

lemma step_body_failure_iff:
  "(fst (step st c gs) = Inr PNone \<or> isl (fst (step st c gs)))
     \<longleftrightarrow> isl (fst (step_body st c gs))"
proof (cases "fst (step_body st c gs)")
  case (Inl e)
  with except_clause_cases [of st e] show ?thesis by (auto simp: fst_step)
next
  case (Inr d)
  with step_body_cases [of st c gs] show ?thesis by (auto simp: fst_step)
qed

lemma step_counter_step:
  "step_counter (snd (step st c gs)) =
     (if isl (fst (step_body st c gs)) then step_counter c else step_counter c + 1)"
  by (auto simp: snd_step step_body_def Let_def split: sum.splits prod.splits)

lemma maxlen_step:
  "maxlen (recent_actions (snd (step st c gs))) = maxlen (recent_actions c)"
  by (auto simp: snd_step step_body_def Let_def maxlen_foldl split: sum.splits prod.splits)

lemma length_step:
  "length (items (recent_actions c)) \<le> maxlen (recent_actions c) \<Longrightarrow>
   length (items (recent_actions (snd (step st c gs)))) \<le> maxlen (recent_actions c)"
  by (auto simp: snd_step step_body_def Let_def length_foldl split: sum.splits prod.splits)

lemma step_body_success_recent:
  "fst (step_body st c gs) = Inr (PDict dec) \<Longrightarrow>
   \<exists>acts. map_of dec ''action'' = Some (PList acts) \<and>
      recent_actions (snd (step_body st c gs)) = foldl deque_append (recent_actions c) acts"
  by (auto simp: step_body_def Let_def split: sum.splits prod.splits)

lemma step_success_recent:
  assumes "fst (step st c gs) = Inr (PDict dec)"
  shows "\<exists>acts. map_of dec ''action'' = Some (PList acts) \<and>
      recent_actions (snd (step st c gs)) = foldl deque_append (recent_actions c) acts"
proof (cases "fst (step_body st c gs)")
  case (Inl e)
  with assms except_clause_cases [of st e] show ?thesis by (auto simp: fst_step)
next
  case (Inr d)
  with assms have "fst (step_body st c gs) = Inr (PDict dec)" by (simp add: fst_step)
  from step_body_success_recent [OF this] show ?thesis by (simp add: snd_step)
qed

lemma step_failure_recent:
  "isl (fst (step_body st c gs)) \<Longrightarrow>
   recent_actions (snd (step st c gs)) = recent_actions c"
  by (auto simp: snd_step step_body_def Let_def split: sum.splits prod.splits)

section \<open>Properties of a sequence of ticks\<close>

lemma run_maxlen: "maxlen (recent_actions (run c ticks)) = maxlen (recent_actions c)"
  by (induction c ticks rule: run.induct) (simp_all add: maxlen_step)

lemma run_length:
  "length (items (recent_actions c)) \<le> maxlen (recent_actions c) \<Longrightarrow>
   length (items (recent_actions (run c ticks))) \<le> maxlen (recent_actions c)"
proof (induction c ticks rule: run.induct)
  case (1 c)
  then show ?case by simp
next
  case (2 c st gs ticks)
  let ?c = "snd (step st c gs)"
  have "length (items (recent_actions ?c)) \<le> maxlen (recent_actions ?c)"
    using "2.prems" by (simp add: maxlen_step length_step)
  from "2.IH" [OF this] show ?case by (simp add: maxlen_step)
qed

lemma run_step_counter: "step_counter c \<le> step_counter (run c ticks)"
proof (induction c ticks rule: run.induct)
  case (1 c)
  then show ?case by simp
next
  case (2 c st gs ticks)
  have "step_counter c \<le> step_counter (snd (step st c gs))"
    by (simp add: step_counter_step)
  with "2.IH" show ?case by simp
qed

section \<open>What each stage is called with, and what a tick leaves\<close>

lemma strip_frame:
  "\<exists>l r. f = l @ strip f @ r \<and> (\<forall>c \<in> set l. isspace c) \<and> (\<forall>c \<in> set r. isspace c)"
proof -
  let ?l = "takeWhile isspace f"
  let ?r = "rev (takeWhile isspace (rev (dropWhile isspace f)))"
  have "f = ?l @ strip f @ ?r" by (rule strip_decomp)
  moreover have "\<forall>c \<in> set ?l. isspace c" by (auto dest: set_takeWhileD)
  moreover have "\<forall>c \<in> set ?r. isspace c" by (auto dest: set_takeWhileD)
  ultimately show ?thesis by blast
qed




lemma step_frame_only:
  "resolve_frame gs = Inr fr \<Longrightarrow>
   step st c gs =
     step (st\<lparr>perception_step :=
                 (\<lambda>f sd. if f = fr then perception_step st f sd else Inl TypeError),
               action_step :=
                 (\<lambda>m p t f sd r. if f = fr then action_step st m p t f sd r
                                  else Inl TypeError)\<rparr>) c gs"
  by (simp add: step_def step_body_def except_clause_def Let_def
      split: sum.splits prod.splits)

lemma step_memory_context:
  "memory_context (snd (step st c gs)) = memory_context c \<or>
   (\<exists>sd text. memory_step st (memory_context c) (current_plan c) (items (recent_actions c))
        [observation_entry c sd text] = Inr (memory_context (snd (step st c gs))))"
  by (auto simp: snd_step step_body_def Let_def observation_entry_def
      split: sum.splits prod.splits)

lemma step_memory_nonnull:
  assumes "\<forall>m p r es v. memory_step st m p r es = Inr v \<longrightarrow> v \<noteq> PNone"
    and "memory_context c \<noteq> PNone"
  shows "memory_context (snd (step st c gs)) \<noteq> PNone"
  using step_memory_context [of st c gs] assms by metis

lemma run_memory_nonnull:
  "\<forall>(st, gs) \<in> set ticks. \<forall>m p r es v. memory_step st m p r es = Inr v \<longrightarrow> v \<noteq> PNone \<Longrightarrow>
   memory_context c \<noteq> PNone \<Longrightarrow> memory_context (run c ticks) \<noteq> PNone"
proof (induction c ticks rule: run.induct)
  case (1 c)
  then show ?case by simp
next
  case (2 c st gs ticks)
  have "memory_context (snd (step st c gs)) \<noteq> PNone"
    using "2.prems" by (intro step_memory_nonnull) auto
  with "2.IH" "2.prems"(1) show ?case by simp
qed

lemma step_memory_only:
  "step st c (PDict d) =
     step (st\<lparr>memory_step :=
                 (\<lambda>m p r es.
                    if \<exists>text. es = [observation_entry c (without_frame d) text]
                    then memory_step st m p r es else Inl TypeError)\<rparr>) c (PDict d)"
proof -
  have e: "\<And>ob text. observation_entry (c\<lparr>last_observation := ob\<rparr>) (without_frame d) text
      = observation_entry c (without_frame d) text"
    by (simp add: observation_entry_def)
  have "\<And>text. \<exists>t. observation_entry c (without_frame d) text
      = observation_entry c (without_frame d) t"
    by blast
  then show ?thesis
    by (simp add: step_def step_body_def except_clause_def Let_def e
        split: sum.splits prod.splits)
qed

section \<open>The claims\<close>

text \<open>
  C1, as the code has it. The claim that a raising stage leaves the whole belief state
  as it was before the call holds only for the perception stage. Each slot is assigned
  right after its stage returns and the \<^verbatim>\<open>except\<close> clause restores nothing, so: when
  perception raises, the belief state is unchanged; when memory raises,
  \<open>last_observation\<close> already holds this tick's observation; when planning raises,
  \<open>memory_context\<close> holds this tick's memory as well; when action raises,
  \<open>current_plan\<close> holds this tick's plan as well. In every tick that returns \<^verbatim>\<open>None\<close>
  or lets an exception through, \<open>recent_actions\<close> and \<open>step_counter\<close> are unchanged.
  What the call gives back is what the \<^verbatim>\<open>except\<close> clause makes of the exception: \<^verbatim>\<open>None\<close>
  for an \<^verbatim>\<open>Exception\<close> whose message is printed.
\<close>

theorem failed_tick_state:
  assumes "resolve_frame game_state = Inr frame" and "state_data_of game_state = Inr sd"
  shows
  "(perception_step st frame sd = Inl e \<longrightarrow>
      step st c game_state = (except_clause st e, c)) \<and>
   (perception_step st frame sd = Inr (ob, slow) \<and>
    py_get ob ''description'' (PStr (str_builtin st ob)) = Inr text \<longrightarrow>
      (memory_step st (memory_context c) (current_plan c) (items (recent_actions c))
          [observation_entry c sd text] = Inl e \<longrightarrow>
         step st c game_state = (except_clause st e, c\<lparr>last_observation := ob\<rparr>)) \<and>
      (memory_step st (memory_context c) (current_plan c) (items (recent_actions c))
          [observation_entry c sd text] = Inr m \<longrightarrow>
         (planning_step st m (current_plan c) slow sd = Inl e \<longrightarrow>
            step st c game_state =
              (except_clause st e, c\<lparr>last_observation := ob, memory_context := m\<rparr>)) \<and>
         (planning_step st m (current_plan c) slow sd = Inr p \<and>
          action_step st m p text frame sd (items (recent_actions c)) = Inl e \<longrightarrow>
            step st c game_state =
              (except_clause st e,
               c\<lparr>last_observation := ob, memory_context := m, current_plan := p\<rparr>)))) \<and>
   (is_Exception e \<and> print_error st e = None \<longrightarrow> except_clause st e = Inr PNone) \<and>
   (fst (step st c game_state) = Inr PNone \<or> isl (fst (step st c game_state)) \<longrightarrow>
      recent_actions (snd (step st c game_state)) = recent_actions c \<and>
      step_counter (snd (step st c game_state)) = step_counter c)"
proof -
  have oe: "\<And>ob. observation_entry (c\<lparr>last_observation := ob\<rparr>) sd text
      = observation_entry c sd text"
    by (simp add: observation_entry_def)
  have 1: "perception_step st frame sd = Inl e \<longrightarrow>
      step st c game_state = (except_clause st e, c)"
    using assms by (simp add: step_def step_body_def)
  have 2: "perception_step st frame sd = Inr (ob, slow) \<and>
    py_get ob ''description'' (PStr (str_builtin st ob)) = Inr text \<longrightarrow>
      (memory_step st (memory_context c) (current_plan c) (items (recent_actions c))
          [observation_entry c sd text] = Inl e \<longrightarrow>
         step st c game_state = (except_clause st e, c\<lparr>last_observation := ob\<rparr>))"
    using assms by (simp add: step_def step_body_def Let_def oe)
  have 3: "perception_step st frame sd = Inr (ob, slow) \<and>
    py_get ob ''description'' (PStr (str_builtin st ob)) = Inr text \<longrightarrow>
      (memory_step st (memory_context c) (current_plan c) (items (recent_actions c))
          [observation_entry c sd text] = Inr m \<longrightarrow>
         (planning_step st m (current_plan c) slow sd = Inl e \<longrightarrow>
            step st c game_state =
              (except_clause st e, c\<lparr>last_observation := ob, memory_context := m\<rparr>)))"
    using assms by (simp add: step_def step_body_def Let_def oe)
  have 4: "perception_step st frame sd = Inr (ob, slow) \<and>
    py_get ob ''description'' (PStr (str_builtin st ob)) = Inr text \<longrightarrow>
      (memory_step st (memory_context c) (current_plan c) (items (recent_actions c))
          [observation_entry c sd text] = Inr m \<longrightarrow>
         (planning_step st m (current_plan c) slow sd = Inr p \<and>
          action_step st m p text frame sd (items (recent_actions c)) = Inl e \<longrightarrow>
            step st c game_state =
              (except_clause st e,
               c\<lparr>last_observation := ob, memory_context := m, current_plan := p\<rparr>)))"
    using assms by (simp add: step_def step_body_def Let_def oe)
  have 5: "is_Exception e \<and> print_error st e = None \<longrightarrow> except_clause st e = Inr PNone"
    by (simp add: except_clause_def)
  have f: "fst (step st c game_state) = Inr PNone \<or> isl (fst (step st c game_state)) \<Longrightarrow>
      isl (fst (step_body st c game_state))"
    by (simp add: step_body_failure_iff)
  have 6: "fst (step st c game_state) = Inr PNone \<or> isl (fst (step st c game_state)) \<longrightarrow>
      recent_actions (snd (step st c game_state)) = recent_actions c \<and>
      step_counter (snd (step st c game_state)) = step_counter c"
    using f by (auto simp: step_failure_recent step_counter_step)
  from 1 2 3 4 5 6 show ?thesis by blast
qed

theorem failed_tick_state_witness:
  "step perception_raises init_context (PDict demo_snapshot) = (Inr PNone, init_context) \<and>
   step memory_raises init_context (PDict demo_snapshot) =
     (Inr PNone,
      init_context\<lparr>last_observation := PDict [(''description'', PStr ''overworld'')]\<rparr>) \<and>
   step planning_raises init_context (PDict demo_snapshot) =
     (Inr PNone,
      init_context\<lparr>last_observation := PDict [(''description'', PStr ''overworld'')],
        memory_context := PList [observation_entry init_context (without_frame demo_snapshot)
                                   (PStr ''overworld'')]\<rparr>) \<and>
   step action_raises init_context (PDict demo_snapshot) =
     (Inr PNone,
      init_context\<lparr>last_observation := PDict [(''description'', PStr ''overworld'')],
        memory_context := PList [observation_entry init_context (without_frame demo_snapshot)
                                   (PStr ''overworld'')],
        current_plan := PStr ''reach the lab''\<rparr>) \<and>
   step planning_interrupted init_context (PDict demo_snapshot) =
     (Inl KeyboardInterrupt,
      init_context\<lparr>last_observation := PDict [(''description'', PStr ''overworld'')],
        memory_context := PList [observation_entry init_context (without_frame demo_snapshot)
                                   (PStr ''overworld'')]\<rparr>)"
proof -
  let ?sd = "without_frame demo_snapshot"
  let ?ob = "PDict [(''description'', PStr ''overworld'')]"
  let ?m = "PList [observation_entry init_context ?sd (PStr ''overworld'')]"
  let ?e = "OtherError ''backend unavailable''"
  have f: "resolve_frame (PDict demo_snapshot) = Inr (PObj 0)"
    by (simp add: resolve_frame_def dict_get_def demo_snapshot_def)
  have s: "state_data_of (PDict demo_snapshot) = Inr ?sd" by simp
  have 1: "step perception_raises init_context (PDict demo_snapshot) = (Inr PNone, init_context)"
    using failed_tick_state [OF f s, of perception_raises ?e init_context]
    by (simp add: perception_raises_def demo_stages_def backend_down_def)
  have 2: "step memory_raises init_context (PDict demo_snapshot) =
     (Inr PNone, init_context\<lparr>last_observation := ?ob\<rparr>)"
    using failed_tick_state [OF f s, of memory_raises ?e init_context ?ob "PBool False"
      "PStr ''overworld''"]
    by (simp add: memory_raises_def demo_stages_def backend_down_def dict_get_def)
  have 3: "step planning_raises init_context (PDict demo_snapshot) =
     (Inr PNone, init_context\<lparr>last_observation := ?ob, memory_context := ?m\<rparr>)"
    using failed_tick_state [OF f s, of planning_raises ?e init_context ?ob "PBool False"
      "PStr ''overworld''" ?m]
    by (simp add: planning_raises_def demo_stages_def backend_down_def dict_get_def)
  have 4: "step action_raises init_context (PDict demo_snapshot) =
     (Inr PNone, init_context\<lparr>last_observation := ?ob, memory_context := ?m,
        current_plan := PStr ''reach the lab''\<rparr>)"
    using failed_tick_state [OF f s, of action_raises ?e init_context ?ob "PBool False"
      "PStr ''overworld''" ?m "PStr ''reach the lab''"]
    by (simp add: action_raises_def demo_stages_def backend_down_def dict_get_def)
  have 5: "step planning_interrupted init_context (PDict demo_snapshot) =
     (Inl KeyboardInterrupt, init_context\<lparr>last_observation := ?ob, memory_context := ?m\<rparr>)"
    using failed_tick_state [OF f s, of planning_interrupted KeyboardInterrupt init_context ?ob
      "PBool False" "PStr ''overworld''" ?m]
    by (simp add: planning_interrupted_def demo_stages_def dict_get_def except_clause_def)
  from 1 2 3 4 5 show ?thesis by simp
qed

text \<open>
  C1 as stated fails: the memory stage raises, \<^verbatim>\<open>step\<close> returns \<^verbatim>\<open>None\<close>, and
  \<open>last_observation\<close>, which was \<^verbatim>\<open>None\<close> before the call, holds the observation.
\<close>

theorem atomicity_counterexample:
  "fst (step memory_raises init_context (PDict demo_snapshot)) = Inr PNone \<and>
   last_observation init_context = PNone \<and>
   last_observation (snd (step memory_raises init_context (PDict demo_snapshot)))
     = PDict [(''description'', PStr ''overworld'')] \<and>
   snd (step memory_raises init_context (PDict demo_snapshot)) \<noteq> init_context"
  by (simp add: step_def step_body_def except_clause_def memory_raises_def demo_stages_def
      backend_down_def init_context_def demo_snapshot_def
      resolve_frame_def dict_get_def without_frame_def observation_entry_def Let_def)

text \<open>
  C2. Along every sequence of ticks the length of \<open>recent_actions\<close> stays within the
  capacity of the deque, which never changes; appending any sequence of tokens to an
  empty deque of capacity \<open>N\<close> leaves at most \<open>N\<close> of them, and when there were more
  than \<open>N\<close> it leaves exactly the last \<open>N\<close> in their order. A successful tick appends
  the returned actions in this way.
\<close>

theorem recent_actions_bounded:
  "(length (items (recent_actions c)) \<le> maxlen (recent_actions c) \<longrightarrow>
      length (items (recent_actions (run c ticks))) \<le> maxlen (recent_actions (run c ticks)) \<and>
      maxlen (recent_actions (run c ticks)) = maxlen (recent_actions c)) \<and>
   length (items (recent_actions (run init_context ticks)))
     \<le> maxlen (recent_actions init_context) \<and>
   length (items (foldl deque_append \<lparr>maxlen = N, items = []\<rparr> tokens)) \<le> N \<and>
   (N < length tokens \<longrightarrow>
      items (foldl deque_append \<lparr>maxlen = N, items = []\<rparr> tokens)
        = drop (length tokens - N) tokens \<and>
      length (items (foldl deque_append \<lparr>maxlen = N, items = []\<rparr> tokens)) = N) \<and>
   (length (items (recent_actions c)) \<le> maxlen (recent_actions c) \<and>
    fst (step st c game_state) = Inr (PDict decision) \<longrightarrow>
      (\<exists>actions. map_of decision ''action'' = Some (PList actions) \<and>
         items (recent_actions (snd (step st c game_state)))
           = drop (length (items (recent_actions c)) + length actions
                     - maxlen (recent_actions c))
               (items (recent_actions c) @ actions)))"
proof -
  have a: "length (items (recent_actions c)) \<le> maxlen (recent_actions c) \<Longrightarrow>
      length (items (recent_actions (run c ticks))) \<le> maxlen (recent_actions (run c ticks)) \<and>
      maxlen (recent_actions (run c ticks)) = maxlen (recent_actions c)"
    by (simp add: run_maxlen run_length)
  have b: "length (items (recent_actions (run init_context ticks)))
     \<le> maxlen (recent_actions init_context)"
    by (rule run_length) (simp add: init_context_def)
  let ?e = "\<lparr>maxlen = N, items = []\<rparr>"
  have e: "length (items ?e) \<le> maxlen ?e" by simp
  have c: "length (items (foldl deque_append ?e tokens)) \<le> N"
    using length_foldl [OF e, of tokens] by simp
  have d: "items (foldl deque_append ?e tokens) = drop (length tokens - N) tokens"
    using items_foldl [OF e, of tokens] by simp
  have f: "length (items (recent_actions c)) \<le> maxlen (recent_actions c) \<Longrightarrow>
    fst (step st c game_state) = Inr (PDict decision) \<Longrightarrow>
      (\<exists>actions. map_of decision ''action'' = Some (PList actions) \<and>
         items (recent_actions (snd (step st c game_state)))
           = drop (length (items (recent_actions c)) + length actions
                     - maxlen (recent_actions c))
               (items (recent_actions c) @ actions))"
  proof -
    assume inv: "length (items (recent_actions c)) \<le> maxlen (recent_actions c)"
      and ok: "fst (step st c game_state) = Inr (PDict decision)"
    from step_success_recent [OF ok] obtain actions where
      act: "map_of decision ''action'' = Some (PList actions)" and
      ra: "recent_actions (snd (step st c game_state))
             = foldl deque_append (recent_actions c) actions"
      by blast
    from ra items_foldl [OF inv, of actions] act show ?thesis by simp
  qed
  have g: "N < length tokens \<Longrightarrow>
      length (items (foldl deque_append ?e tokens)) = N"
    using d by simp
  from a b c d f g show ?thesis by blast
qed

theorem recent_actions_bounded_witness:
  "items (foldl deque_append \<lparr>maxlen = 25, items = []\<rparr> tokens27) = drop 2 tokens27 \<and>
   length (items (recent_actions (run init_context [(demo_stages, PDict demo_snapshot)]))) \<le> 25 \<and>
   items (recent_actions (snd (step demo_stages init_context (PDict demo_snapshot))))
     = [PStr ''LEFT'']"
proof -
  have i: "length (items (recent_actions init_context)) \<le> maxlen (recent_actions init_context)"
    by (simp add: init_context_def)
  have l: "(25::nat) < length tokens27" by (simp add: tokens27_def)
  have s: "fst (step demo_stages init_context (PDict demo_snapshot)) =
     Inr (PDict [(''action'', PList [PStr ''LEFT'']),
            (''observation'', PDict [(''description'', PStr ''overworld'')]),
            (''plan'', PStr ''reach the lab''),
            (''memory_context'', PList [PDict [(''frame_id'', PInt 7),
               (''observation'', PStr ''overworld''),
               (''state'', PDict (without_frame demo_snapshot))]])])"
    by (simp add: step_def step_body_def demo_stages_def init_context_def demo_snapshot_def
      resolve_frame_def dict_get_def without_frame_def observation_entry_def Let_def
      split_on_def strip_def isspace_def deque_append_def)
  have m: "maxlen (recent_actions init_context) = 25" "items (recent_actions init_context) = []"
    by (simp_all add: init_context_def)
  from recent_actions_bounded [of init_context "[(demo_stages, PDict demo_snapshot)]" 25
      tokens27 demo_stages "PDict demo_snapshot"
      "[(''action'', PList [PStr ''LEFT'']),
            (''observation'', PDict [(''description'', PStr ''overworld'')]),
            (''plan'', PStr ''reach the lab''),
            (''memory_context'', PList [PDict [(''frame_id'', PInt 7),
               (''observation'', PStr ''overworld''),
               (''state'', PDict (without_frame demo_snapshot))]])]"] i l s m
  show ?thesis by (simp add: tokens27_def)
qed

text \<open>
  C3. Normalisation of the action result: \<^verbatim>\<open>None\<close> gives the empty list; a string gives
  its comma-separated fields, trimmed, the empty ones dropped, in order; a list or a
  tuple gives its elements unchanged. The fields are what \<^verbatim>\<open>split\<close> must give (joined by
  commas they are the string again, and none contains a comma), and trimming removes
  whitespace at both ends and nothing else.
\<close>

theorem normalize_actions_spec:
  "normalize_actions PNone = Inr [] \<and>
   normalize_actions (PStr s) =
     Inr (map PStr (filter (\<lambda>t. t \<noteq> []) (map strip (split_on s (CHR '','')))))  \<and>
   join '','' (split_on s (CHR '','')) = s \<and>
   (\<forall>f \<in> set (split_on s (CHR '','')). CHR '','' \<notin> set f) \<and>
   (\<exists>l r. f = l @ strip f @ r \<and> (\<forall>c \<in> set l. isspace c) \<and> (\<forall>c \<in> set r. isspace c)) \<and>
   (strip f \<noteq> [] \<longrightarrow> \<not> isspace (hd (strip f)) \<and> \<not> isspace (last (strip f))) \<and>
   normalize_actions (PStr ''A, B ,C'') = Inr [PStr ''A'', PStr ''B'', PStr ''C''] \<and>
   normalize_actions (PStr '''') = Inr [] \<and>
   normalize_actions (PList xs) = Inr xs \<and>
   normalize_actions (PTuple xs) = Inr xs \<and>
   normalize_actions (PList [PStr ''UP'', PStr ''UP'']) = Inr [PStr ''UP'', PStr ''UP'']"
proof -
  have j: "join '','' (split_on s (CHR '','')) = s"
    using join_split_scan [of "CHR '',''" "[]" s] by (simp add: split_on_def)
  have n: "\<forall>f \<in> set (split_on s (CHR '','')). CHR '','' \<notin> set f"
    using split_scan_no_sep [of "CHR '',''" "[]" s] by (simp add: split_on_def)
  have e1: "normalize_actions (PStr ''A, B ,C'') = Inr [PStr ''A'', PStr ''B'', PStr ''C'']"
    by (simp add: split_on_def strip_def isspace_def)
  have e2: "normalize_actions (PStr '''') = Inr []"
    by (simp add: split_on_def strip_def isspace_def)
  have h: "strip f \<noteq> [] \<longrightarrow> \<not> isspace (hd (strip f)) \<and> \<not> isspace (last (strip f))"
    using strip_hd [of f] strip_last [of f] by blast
  show ?thesis
    apply (intro conjI)
    apply simp
    apply simp
    apply (rule j)
    apply (rule n)
    apply (rule strip_frame)
    apply (rule h)
    apply (rule e1)
    apply (rule e2)
    apply simp_all
    done
qed

theorem normalize_actions_spec_witness:
  "join '','' (split_on ''A, B ,C'' (CHR '','')) = ''A, B ,C'' \<and>
   split_on ''A, B ,C'' (CHR '','') = [''A'', '' B '', ''C''] \<and>
   strip '' B '' = ''B'' \<and>
   \<not> isspace (hd (strip '' B '')) \<and> \<not> isspace (last (strip '' B '')) \<and>
   normalize_actions (PStr ''A, B ,C'') = Inr [PStr ''A'', PStr ''B'', PStr ''C'']"
proof -
  have s: "split_on ''A, B ,C'' (CHR '','') = [''A'', '' B '', ''C'']"
    by (simp add: split_on_def)
  have t: "strip '' B '' = ''B''"
    by (simp add: strip_def isspace_def)
  from normalize_actions_spec [of "''A, B ,C''" "'' B ''" "[]"] s t
  show ?thesis by simp
qed

text \<open>
  C4. A tick that returns a decision leaves \<open>step_counter\<close> one greater than before;
  a tick that returns \<^verbatim>\<open>None\<close> or lets an exception through, which is exactly a tick
  whose body raised, leaves it unchanged; so the counter never decreases along any
  sequence of ticks.
\<close>

theorem step_counter_spec:
  "(fst (step st c game_state) \<noteq> Inr PNone \<and> \<not> isl (fst (step st c game_state)) \<longrightarrow>
      step_counter (snd (step st c game_state)) = step_counter c + 1) \<and>
   (fst (step st c game_state) = Inr PNone \<or> isl (fst (step st c game_state)) \<longrightarrow>
      step_counter (snd (step st c game_state)) = step_counter c) \<and>
   ((fst (step st c game_state) = Inr PNone \<or> isl (fst (step st c game_state)))
      \<longleftrightarrow> isl (fst (step_body st c game_state))) \<and>
   step_counter c \<le> step_counter (run c ticks)"
  using step_body_failure_iff [of st c game_state]
  by (simp add: step_counter_step run_step_counter)

theorem step_counter_spec_witness:
  "fst (step demo_stages init_context (PDict demo_snapshot)) \<noteq> Inr PNone \<and>
   \<not> isl (fst (step demo_stages init_context (PDict demo_snapshot))) \<and>
   step_counter (snd (step demo_stages init_context (PDict demo_snapshot))) = 1 \<and>
   fst (step memory_raises init_context (PDict demo_snapshot)) = Inr PNone \<and>
   step_counter (snd (step memory_raises init_context (PDict demo_snapshot))) = 0 \<and>
   fst (step planning_interrupted init_context (PDict demo_snapshot)) = Inl KeyboardInterrupt \<and>
   step_counter (snd (step planning_interrupted init_context (PDict demo_snapshot))) = 0"
proof -
  have ok: "fst (step demo_stages init_context (PDict demo_snapshot)) \<noteq> Inr PNone \<and>
      \<not> isl (fst (step demo_stages init_context (PDict demo_snapshot)))"
    by (simp add: step_def step_body_def demo_stages_def init_context_def demo_snapshot_def
      resolve_frame_def dict_get_def without_frame_def observation_entry_def Let_def
      split_on_def strip_def isspace_def deque_append_def)
  have bad: "fst (step memory_raises init_context (PDict demo_snapshot)) = Inr PNone"
    by (simp add: step_def step_body_def except_clause_def memory_raises_def demo_stages_def
      backend_down_def init_context_def demo_snapshot_def
      resolve_frame_def dict_get_def without_frame_def observation_entry_def Let_def)
  have int: "fst (step planning_interrupted init_context (PDict demo_snapshot))
      = Inl KeyboardInterrupt"
    by (simp add: step_def step_body_def except_clause_def planning_interrupted_def
      demo_stages_def init_context_def demo_snapshot_def
      resolve_frame_def dict_get_def without_frame_def observation_entry_def Let_def)
  have c0: "step_counter init_context = 0" by (simp add: init_context_def)
  from ok bad int c0
    step_counter_spec [of demo_stages init_context "PDict demo_snapshot" "[]"]
    step_counter_spec [of memory_raises init_context "PDict demo_snapshot" "[]"]
    step_counter_spec [of planning_interrupted init_context "PDict demo_snapshot" "[]"]
  show ?thesis by simp
qed




text \<open>
  C6, as the code has it. In four-module mode \<^verbatim>\<open>step\<close> returns \<^verbatim>\<open>None\<close>, or returns a
  mapping with exactly the four entries \<^verbatim>\<open>action\<close> (a list), \<^verbatim>\<open>observation\<close>, \<^verbatim>\<open>plan\<close>
  and \<^verbatim>\<open>memory_context\<close>, or lets an exception through to the caller. When every stage
  returns and the action result normalises, the mapping holds this tick's normalised
  actions, observation, plan and memory. An exception raised by a stage is the
  exception of the body; when it is an \<^verbatim>\<open>Exception\<close> and the handler's \<^verbatim>\<open>print\<close>
  succeeds, \<^verbatim>\<open>step\<close> returns \<^verbatim>\<open>None\<close>; when it is no \<^verbatim>\<open>Exception\<close> (an interrupt, an
  exit), it reaches the caller. Nothing reaches the caller unless the body raised
  something that is no \<^verbatim>\<open>Exception\<close> or the \<^verbatim>\<open>print\<close> did not succeed.
\<close>

theorem step_result_spec:
  "(fst (step st c game_state) = Inr PNone \<or>
    (\<exists>actions observation plan memory.
       fst (step st c game_state) =
         Inr (PDict [(''action'', PList actions), (''observation'', observation),
                     (''plan'', plan), (''memory_context'', memory)])) \<or>
    (\<exists>x. fst (step st c game_state) = Inl x)) \<and>
   (fst (step_body st c game_state) = Inl e \<and> is_Exception e \<and> print_error st e = None \<longrightarrow>
      fst (step st c game_state) = Inr PNone) \<and>
   (fst (step_body st c game_state) = Inl e \<and> \<not> is_Exception e \<longrightarrow>
      fst (step st c game_state) = Inl e) \<and>
   (fst (step st c game_state) = Inl x \<longrightarrow>
      (\<exists>e'. fst (step_body st c game_state) = Inl e' \<and>
         (\<not> is_Exception e' \<or> print_error st e' \<noteq> None))) \<and>
   (resolve_frame game_state = Inr frame \<and> state_data_of game_state = Inr sd \<longrightarrow>
      (perception_step st frame sd = Inl e \<longrightarrow> fst (step_body st c game_state) = Inl e) \<and>
      (perception_step st frame sd = Inr (ob, slow) \<and>
       py_get ob ''description'' (PStr (str_builtin st ob)) = Inr text \<longrightarrow>
         (memory_step st (memory_context c) (current_plan c) (items (recent_actions c))
             [observation_entry c sd text] = Inl e \<longrightarrow>
            fst (step_body st c game_state) = Inl e) \<and>
         (memory_step st (memory_context c) (current_plan c) (items (recent_actions c))
             [observation_entry c sd text] = Inr m \<longrightarrow>
            (planning_step st m (current_plan c) slow sd = Inl e \<longrightarrow>
               fst (step_body st c game_state) = Inl e) \<and>
            (planning_step st m (current_plan c) slow sd = Inr p \<longrightarrow>
               (action_step st m p text frame sd (items (recent_actions c)) = Inl e \<longrightarrow>
                  fst (step_body st c game_state) = Inl e) \<and>
               (action_step st m p text frame sd (items (recent_actions c)) = Inr raw \<and>
                normalize_actions raw = Inr acts \<longrightarrow>
                  fst (step st c game_state) =
                    Inr (PDict [(''action'', PList acts), (''observation'', ob),
                                (''plan'', p), (''memory_context'', m)]))))))"
proof -
  have 1: "fst (step st c game_state) = Inr PNone \<or>
    (\<exists>actions observation plan memory.
       fst (step st c game_state) =
         Inr (PDict [(''action'', PList actions), (''observation'', observation),
                     (''plan'', plan), (''memory_context'', memory)])) \<or>
    (\<exists>x. fst (step st c game_state) = Inl x)"
    using step_cases [of st c game_state] by (auto simp: isl_def)
  have 2: "fst (step_body st c game_state) = Inl e \<and> is_Exception e \<and> print_error st e = None
      \<longrightarrow> fst (step st c game_state) = Inr PNone"
    by (simp add: fst_step except_clause_def)
  have 3: "fst (step_body st c game_state) = Inl e \<and> \<not> is_Exception e \<longrightarrow>
      fst (step st c game_state) = Inl e"
    by (simp add: fst_step except_clause_def)
  have 4: "fst (step st c game_state) = Inl x \<longrightarrow>
      (\<exists>e'. fst (step_body st c game_state) = Inl e' \<and>
         (\<not> is_Exception e' \<or> print_error st e' \<noteq> None))"
    by (cases "fst (step_body st c game_state)")
      (auto simp: fst_step except_clause_def split: if_splits option.splits)
  have oe: "\<And>ob. observation_entry (c\<lparr>last_observation := ob\<rparr>) sd text
      = observation_entry c sd text"
    by (simp add: observation_entry_def)
  have 5: "resolve_frame game_state = Inr frame \<and> state_data_of game_state = Inr sd \<longrightarrow>
      (perception_step st frame sd = Inl e \<longrightarrow> fst (step_body st c game_state) = Inl e) \<and>
      (perception_step st frame sd = Inr (ob, slow) \<and>
       py_get ob ''description'' (PStr (str_builtin st ob)) = Inr text \<longrightarrow>
         (memory_step st (memory_context c) (current_plan c) (items (recent_actions c))
             [observation_entry c sd text] = Inl e \<longrightarrow>
            fst (step_body st c game_state) = Inl e) \<and>
         (memory_step st (memory_context c) (current_plan c) (items (recent_actions c))
             [observation_entry c sd text] = Inr m \<longrightarrow>
            (planning_step st m (current_plan c) slow sd = Inl e \<longrightarrow>
               fst (step_body st c game_state) = Inl e) \<and>
            (planning_step st m (current_plan c) slow sd = Inr p \<longrightarrow>
               (action_step st m p text frame sd (items (recent_actions c)) = Inl e \<longrightarrow>
                  fst (step_body st c game_state) = Inl e) \<and>
               (action_step st m p text frame sd (items (recent_actions c)) = Inr raw \<and>
                normalize_actions raw = Inr acts \<longrightarrow>
                  fst (step st c game_state) =
                    Inr (PDict [(''action'', PList acts), (''observation'', ob),
                                (''plan'', p), (''memory_context'', m)])))))"
    by (simp add: fst_step step_body_def Let_def oe)
  from 1 2 3 4 5 show ?thesis by blast
qed

theorem step_result_spec_witness:
  "fst (step demo_stages init_context (PDict demo_snapshot)) =
     Inr (PDict [(''action'', PList [PStr ''LEFT'']),
                 (''observation'', PDict [(''description'', PStr ''overworld'')]),
                 (''plan'', PStr ''reach the lab''),
                 (''memory_context'',
                    PList [observation_entry init_context (without_frame demo_snapshot)
                             (PStr ''overworld'')])]) \<and>
   fst (step action_raises init_context (PDict demo_snapshot)) = Inr PNone \<and>
   fst (step planning_interrupted init_context (PDict demo_snapshot)) = Inl KeyboardInterrupt"
proof -
  let ?sd = "without_frame demo_snapshot"
  let ?ob = "PDict [(''description'', PStr ''overworld'')]"
  let ?m = "PList [observation_entry init_context ?sd (PStr ''overworld'')]"
  let ?e = "OtherError ''backend unavailable''"
  have f: "resolve_frame (PDict demo_snapshot) = Inr (PObj 0)"
    by (simp add: resolve_frame_def dict_get_def demo_snapshot_def)
  have s: "state_data_of (PDict demo_snapshot) = Inr ?sd" by simp
  have n: "normalize_actions (PStr ''LEFT'') = Inr [PStr ''LEFT'']"
    by (simp add: split_on_def strip_def isspace_def)
  have 1: "fst (step demo_stages init_context (PDict demo_snapshot)) =
     Inr (PDict [(''action'', PList [PStr ''LEFT'']), (''observation'', ?ob),
                 (''plan'', PStr ''reach the lab''), (''memory_context'', ?m)])"
    using step_result_spec [of demo_stages init_context "PDict demo_snapshot" ?e
      ?e "PObj 0" ?sd ?ob "PBool False" "PStr ''overworld''" ?m "PStr ''reach the lab''"
      "PStr ''LEFT''" "[PStr ''LEFT'']"] f s n
    by (simp add: demo_stages_def dict_get_def)
  have b: "fst (step_body action_raises init_context (PDict demo_snapshot)) = Inl ?e"
    using step_result_spec [of action_raises init_context "PDict demo_snapshot" ?e
      ?e "PObj 0" ?sd ?ob "PBool False" "PStr ''overworld''" ?m "PStr ''reach the lab''"]
      f s
    by (simp add: action_raises_def demo_stages_def backend_down_def dict_get_def)
  have 2: "fst (step action_raises init_context (PDict demo_snapshot)) = Inr PNone"
    using step_result_spec [of action_raises init_context "PDict demo_snapshot" ?e] b
    by (simp add: action_raises_def demo_stages_def)
  have k: "fst (step_body planning_interrupted init_context (PDict demo_snapshot))
      = Inl KeyboardInterrupt"
    using step_result_spec [of planning_interrupted init_context "PDict demo_snapshot"
      KeyboardInterrupt ?e "PObj 0" ?sd ?ob "PBool False" "PStr ''overworld''" ?m] f s
    by (simp add: planning_interrupted_def demo_stages_def dict_get_def)
  have 3: "fst (step planning_interrupted init_context (PDict demo_snapshot))
      = Inl KeyboardInterrupt"
    using step_result_spec [of planning_interrupted init_context "PDict demo_snapshot"
      KeyboardInterrupt] k
    by simp
  from 1 2 3 show ?thesis by simp
qed

text \<open>
  C6 as stated fails: a planning stage interrupted from the keyboard raises what
  \<^verbatim>\<open>except Exception\<close> does not catch, and the interrupt reaches the caller; and when the
  output cannot encode the message, the error of the handler's \<^verbatim>\<open>print\<close> reaches the
  caller in place of \<^verbatim>\<open>None\<close>.
\<close>

theorem propagation_counterexample:
  "fst (step planning_interrupted init_context (PDict demo_snapshot)) = Inl KeyboardInterrupt \<and>
   fst (step print_fails init_context (PDict demo_snapshot)) = Inl UnicodeEncodeError"
  by (simp add: step_def step_body_def except_clause_def planning_interrupted_def
      print_fails_def memory_raises_def demo_stages_def backend_down_def init_context_def
      demo_snapshot_def resolve_frame_def dict_get_def without_frame_def
      observation_entry_def Let_def)

text \<open>
  C7, as the code has it. The frame is the \<^verbatim>\<open>frame\<close> entry of the snapshot when that
  entry is present and true in Python's sense. When it is absent or false (\<^verbatim>\<open>None\<close>,
  empty, zero), the frame is the \<^verbatim>\<open>screenshot\<close> entry of the \<^verbatim>\<open>visual\<close> mapping, and
  \<^verbatim>\<open>None\<close> when \<^verbatim>\<open>visual\<close> or its \<^verbatim>\<open>screenshot\<close> is absent. The perception and
  action stages are called with this frame and no other.
\<close>

theorem resolve_frame_spec:
  "(map_of d ''frame'' = Some f \<and> truthy f \<longrightarrow> resolve_frame (PDict d) = Inr f) \<and>
   ((map_of d ''frame'' = None \<or> (map_of d ''frame'' = Some f \<and> \<not> truthy f)) \<longrightarrow>
      (map_of d ''visual'' = None \<longrightarrow> resolve_frame (PDict d) = Inr PNone) \<and>
      (map_of d ''visual'' = Some (PDict v) \<longrightarrow>
         (map_of v ''screenshot'' = Some s \<longrightarrow> resolve_frame (PDict d) = Inr s) \<and>
         (map_of v ''screenshot'' = None \<longrightarrow> resolve_frame (PDict d) = Inr PNone))) \<and>
   (resolve_frame game_state = Inr fr \<longrightarrow>
      step st c game_state =
        step (st\<lparr>perception_step :=
                    (\<lambda>f sd. if f = fr then perception_step st f sd else Inl TypeError),
                  action_step :=
                    (\<lambda>m p t f sd r. if f = fr then action_step st m p t f sd r
                                     else Inl TypeError)\<rparr>) c game_state)"
proof -
  have 1: "map_of d ''frame'' = Some f \<and> truthy f \<longrightarrow> resolve_frame (PDict d) = Inr f"
    by (simp add: resolve_frame_def dict_get_def)
  have 2: "(map_of d ''frame'' = None \<or> (map_of d ''frame'' = Some f \<and> \<not> truthy f)) \<longrightarrow>
      (map_of d ''visual'' = None \<longrightarrow> resolve_frame (PDict d) = Inr PNone) \<and>
      (map_of d ''visual'' = Some (PDict v) \<longrightarrow>
         (map_of v ''screenshot'' = Some s \<longrightarrow> resolve_frame (PDict d) = Inr s) \<and>
         (map_of v ''screenshot'' = None \<longrightarrow> resolve_frame (PDict d) = Inr PNone))"
    by (auto simp: resolve_frame_def dict_get_def)
  from 1 2 step_frame_only [of game_state fr st c] show ?thesis by blast
qed

theorem resolve_frame_spec_witness:
  "resolve_frame (PDict demo_snapshot) = Inr (PObj 0) \<and>
   resolve_frame (PDict (dict_without {''frame''} demo_snapshot)) = Inr (PObj 1) \<and>
   resolve_frame (PDict falsy_frame_snapshot) = Inr (PObj 1) \<and>
   resolve_frame (PDict []) = Inr PNone \<and>
   fst (step demo_stages init_context (PDict [])) \<noteq> Inr PNone \<and>
   \<not> isl (fst (step demo_stages init_context (PDict [])))"
proof -
  have a: "map_of demo_snapshot ''frame'' = Some (PObj 0)" "truthy (PObj 0)"
    by (simp_all add: demo_snapshot_def)
  have b: "map_of (dict_without {''frame''} demo_snapshot) ''frame'' = None"
    "map_of (dict_without {''frame''} demo_snapshot) ''visual''
       = Some (PDict [(''screenshot'', PObj 1)])"
    "map_of [(''screenshot'', PObj 1)] ''screenshot'' = Some (PObj 1)"
    by (simp_all add: demo_snapshot_def dict_without_def)
  have c: "map_of falsy_frame_snapshot ''frame'' = Some (PList [])" "\<not> truthy (PList [])"
    "map_of falsy_frame_snapshot ''visual'' = Some (PDict [(''screenshot'', PObj 1)])"
    by (simp_all add: falsy_frame_snapshot_def)
  have d: "map_of ([] :: pydict) ''frame'' = None" "map_of ([] :: pydict) ''visual'' = None"
    by simp_all
  have e: "fst (step (demo_stages\<lparr>perception_step :=
                    (\<lambda>f sd. if f = PNone then perception_step demo_stages f sd else Inl TypeError),
                  action_step :=
                    (\<lambda>m p t f sd r. if f = PNone then action_step demo_stages m p t f sd r
                                     else Inl TypeError)\<rparr>) init_context (PDict [])) \<noteq> Inr PNone"
    "\<not> isl (fst (step (demo_stages\<lparr>perception_step :=
                    (\<lambda>f sd. if f = PNone then perception_step demo_stages f sd else Inl TypeError),
                  action_step :=
                    (\<lambda>m p t f sd r. if f = PNone then action_step demo_stages m p t f sd r
                                     else Inl TypeError)\<rparr>) init_context (PDict [])))"
    by (simp_all add: step_def step_body_def demo_stages_def init_context_def
      resolve_frame_def dict_get_def without_frame_def observation_entry_def Let_def
      split_on_def strip_def isspace_def deque_append_def)
  have r1: "resolve_frame (PDict demo_snapshot) = Inr (PObj 0)"
    using resolve_frame_spec [of demo_snapshot "PObj 0"] a by simp
  have r2: "resolve_frame (PDict (dict_without {''frame''} demo_snapshot)) = Inr (PObj 1)"
    using resolve_frame_spec [of "dict_without {''frame''} demo_snapshot" PNone
      "[(''screenshot'', PObj 1)]" "PObj 1"] b by simp
  have r3: "resolve_frame (PDict falsy_frame_snapshot) = Inr (PObj 1)"
    using resolve_frame_spec [of falsy_frame_snapshot "PList []"
      "[(''screenshot'', PObj 1)]" "PObj 1"] b(3) c by simp
  have r4: "resolve_frame (PDict []) = Inr PNone"
    using resolve_frame_spec [of "[]" PNone] d by simp
  have r5: "fst (step demo_stages init_context (PDict [])) \<noteq> Inr PNone \<and>
      \<not> isl (fst (step demo_stages init_context (PDict [])))"
    using resolve_frame_spec [of "[]" PNone "[]" PNone "PDict []" PNone demo_stages init_context]
      r4 e by simp
  from r1 r2 r3 r4 r5 show ?thesis by simp
qed

text \<open>
  C7 as stated fails: a \<^verbatim>\<open>frame\<close> entry that is present and empty is not preferred; the
  screenshot under \<^verbatim>\<open>visual\<close> is taken instead.
\<close>

theorem frame_preference_counterexample:
  "map_of [(''frame'', PList []), (''visual'', PDict [(''screenshot'', PObj 1)])] ''frame''
     = Some (PList []) \<and>
   resolve_frame (PDict [(''frame'', PList []), (''visual'', PDict [(''screenshot'', PObj 1)])])
     = Inr (PObj 1) \<and>
   resolve_frame (PDict [(''frame'', PList []), (''visual'', PDict [(''screenshot'', PObj 1)])])
     \<noteq> Inr (PList [])"
  by (simp add: resolve_frame_def dict_get_def)

text \<open>
  C8. \<open>memory_context\<close> is not \<^verbatim>\<open>None\<close> at construction. After a tick it is either what
  it was or what the memory stage returned in this tick; so when the memory stage
  never returns \<^verbatim>\<open>None\<close>, \<open>memory_context\<close> is not \<^verbatim>\<open>None\<close> after any tick, nor after
  any sequence of ticks from the initial state.
\<close>

theorem memory_context_never_null:
  "memory_context init_context \<noteq> PNone \<and>
   ((\<forall>m p r es v. memory_step st m p r es = Inr v \<longrightarrow> v \<noteq> PNone) \<and>
     memory_context c \<noteq> PNone \<longrightarrow> memory_context (snd (step st c game_state)) \<noteq> PNone) \<and>
   (memory_context (snd (step st c game_state)) = memory_context c \<or>
     (\<exists>sd text. memory_step st (memory_context c) (current_plan c) (items (recent_actions c))
        [observation_entry c sd text] = Inr (memory_context (snd (step st c game_state))))) \<and>
   ((\<forall>(st, gs) \<in> set ticks. \<forall>m p r es v. memory_step st m p r es = Inr v \<longrightarrow> v \<noteq> PNone) \<longrightarrow>
     memory_context (run init_context ticks) \<noteq> PNone)"
proof -
  have i: "memory_context init_context \<noteq> PNone" by (simp add: init_context_def)
  from i step_memory_nonnull [of st c game_state] step_memory_context [of st c game_state]
    run_memory_nonnull [of ticks init_context]
  show ?thesis by blast
qed

theorem memory_context_never_null_witness:
  "memory_context (run init_context
      [(demo_stages, PDict demo_snapshot), (planning_raises, PDict demo_snapshot),
       (perception_raises, PDict [])]) \<noteq> PNone \<and>
   memory_context (snd (step perception_raises init_context (PDict demo_snapshot)))
     = memory_context init_context"
proof -
  have d: "\<forall>m p r es v. memory_step demo_stages m p r es = Inr v \<longrightarrow> v \<noteq> PNone"
    by (auto simp: demo_stages_def)
  have p: "\<forall>m p r es v. memory_step planning_raises m p r es = Inr v \<longrightarrow> v \<noteq> PNone"
    by (auto simp: planning_raises_def demo_stages_def)
  have q: "\<forall>m p r es v. memory_step perception_raises m p r es = Inr v \<longrightarrow> v \<noteq> PNone"
    by (auto simp: perception_raises_def demo_stages_def)
  have s: "memory_context (snd (step perception_raises init_context (PDict demo_snapshot)))
     = memory_context init_context"
    by (simp add: step_def step_body_def except_clause_def perception_raises_def
      demo_stages_def backend_down_def demo_snapshot_def resolve_frame_def dict_get_def
      without_frame_def)
  from memory_context_never_null [of demo_stages init_context "PDict demo_snapshot"
      "[(demo_stages, PDict demo_snapshot), (planning_raises, PDict demo_snapshot),
       (perception_raises, PDict [])]"] d p q s
  show ?thesis by simp
qed

text \<open>
  C9. The entry built for the memory stage has as \<^verbatim>\<open>frame_id\<close> the \<^verbatim>\<open>step_number\<close> of
  the residual state mapping when that key is present, and the orchestrator's
  \<open>step_counter\<close> when it is absent; the residual mapping has the \<^verbatim>\<open>step_number\<close> of
  the snapshot. The memory stage is called with a one-element list holding this entry
  and with nothing else.
\<close>

theorem observation_entry_frame_id:
  "(map_of (without_frame d) ''step_number'' = Some n \<longrightarrow>
      py_get (observation_entry c (without_frame d) text) ''frame_id'' PNone = Inr n) \<and>
   (map_of (without_frame d) ''step_number'' = None \<longrightarrow>
      py_get (observation_entry c (without_frame d) text) ''frame_id'' PNone
        = Inr (PInt (step_counter c))) \<and>
   map_of (without_frame d) ''step_number'' = map_of d ''step_number'' \<and>
   step st c (PDict d) =
     step (st\<lparr>memory_step :=
                 (\<lambda>m p r es.
                    if \<exists>text. es = [observation_entry c (without_frame d) text]
                    then memory_step st m p r es else Inl TypeError)\<rparr>) c (PDict d)"
proof -
  have 1: "map_of (without_frame d) ''step_number'' = Some n \<longrightarrow>
      py_get (observation_entry c (without_frame d) text) ''frame_id'' PNone = Inr n"
    by (simp add: observation_entry_def dict_get_def)
  have 2: "map_of (without_frame d) ''step_number'' = None \<longrightarrow>
      py_get (observation_entry c (without_frame d) text) ''frame_id'' PNone
        = Inr (PInt (step_counter c))"
    by (simp add: observation_entry_def dict_get_def)
  have 3: "map_of (without_frame d) ''step_number'' = map_of d ''step_number''"
    by (induction d) (auto simp: without_frame_def)
  from 1 2 3 step_memory_only [of st c d] show ?thesis by blast
qed

theorem observation_entry_frame_id_witness:
  "py_get (observation_entry init_context (without_frame demo_snapshot) (PStr ''overworld''))
      ''frame_id'' PNone = Inr (PInt 7) \<and>
   py_get (observation_entry init_context (without_frame []) (PStr ''overworld''))
      ''frame_id'' PNone = Inr (PInt 0) \<and>
   memory_context (snd (step demo_stages init_context (PDict demo_snapshot))) =
     PList [PDict [(''frame_id'', PInt 7), (''observation'', PStr ''overworld''),
                   (''state'', PDict (without_frame demo_snapshot))]]"
proof -
  have a: "map_of (without_frame demo_snapshot) ''step_number'' = Some (PInt 7)"
    by (simp add: without_frame_def demo_snapshot_def)
  have b: "map_of (without_frame []) ''step_number'' = None"
    by (simp add: without_frame_def)
  have c: "step_counter init_context = 0" by (simp add: init_context_def)
  have s: "memory_context (snd (step demo_stages init_context (PDict demo_snapshot))) =
     PList [PDict [(''frame_id'', PInt 7), (''observation'', PStr ''overworld''),
                   (''state'', PDict (without_frame demo_snapshot))]]"
    by (simp add: step_def step_body_def demo_stages_def init_context_def demo_snapshot_def
      resolve_frame_def dict_get_def without_frame_def observation_entry_def Let_def
      split_on_def strip_def isspace_def deque_append_def)
  from observation_entry_frame_id [of demo_snapshot "PInt 7" init_context "PStr ''overworld''"]
    observation_entry_frame_id [of "[]" PNone init_context "PStr ''overworld''"]
    a b c s
  show ?thesis by simp
qed

text \<open>
  C10. The capacity of \<open>recent_actions\<close> is 25 at construction and in every reachable
  state, where the buffer never holds more than 25 tokens; appending to a buffer that
  holds 25 drops the oldest token and keeps the other 24, followed by the new one.
\<close>

theorem capacity_is_25:
  "maxlen (recent_actions init_context) = 25 \<and>
   maxlen (recent_actions (run init_context ticks)) = 25 \<and>
   length (items (recent_actions (run init_context ticks))) \<le> 25 \<and>
   (maxlen d = 25 \<and> items d = oldest # rest \<and> length (items d) = 25 \<longrightarrow>
      items (deque_append d x) = rest @ [x] \<and> length (items (deque_append d x)) = 25)"
proof -
  have m: "maxlen (recent_actions init_context) = 25" by (simp add: init_context_def)
  have i: "length (items (recent_actions init_context)) \<le> maxlen (recent_actions init_context)"
    by (simp add: init_context_def)
  from run_length [OF i, of ticks] m run_maxlen [of init_context ticks]
  show ?thesis by (auto simp: deque_append_def Let_def)
qed

theorem capacity_is_25_witness:
  "length (items full_deque) = 25 \<and>
   items (deque_append full_deque (PInt 26)) = map PInt [2, 3, 4, 5, 6, 7, 8, 9, 10, 11, 12, 13,
     14, 15, 16, 17, 18, 19, 20, 21, 22, 23, 24, 25, 26]"
  using capacity_is_25 [of "[]" full_deque "PInt 1" "tl (items full_deque)" "PInt 26"]
  by (simp add: full_deque_def)

end
